theory Spec2Isabelle
  imports Complex_Main
begin

section \<open>Shared scaffolding of ratelimit.py\<close>

text \<open>
  The five limiter classes of \<^verbatim>\<open>ratelimit.py\<close> are embedded one by one.  Clock readings
  (\<^verbatim>\<open>time.time()\<close>) are real numbers handed to each operation by its caller, one argument
  per reading the source takes.  The lock is not modelled: every operation is one atomic
  step on the limiter value.  Keys are strings.
\<close>

type_synonym key = string

datatype error = ZeroDivisionError

text \<open>
  \<^verbatim>\<open>defaultdict.__getitem__\<close>: a present key yields its value; a missing key has the
  factory's value stored under it and returned.  The factory's value is the argument
  \<open>dflt\<close>.
\<close>

definition getitem :: "('k \<rightharpoonup> 'v) \<Rightarrow> 'v \<Rightarrow> 'k \<Rightarrow> 'v \<times> ('k \<rightharpoonup> 'v)" where
  "getitem d dflt k = (case d k of Some v \<Rightarrow> (v, d) | None \<Rightarrow> (dflt, d(k \<mapsto> dflt)))"

text \<open>
  \<^verbatim>\<open>int(current_time // window_size)\<close>: floor division of a float by the window size,
  which raises ZeroDivisionError for a zero divisor.
\<close>

definition window_of :: "real \<Rightarrow> int \<Rightarrow> error + int" where
  "window_of current_time window_size =
     (if window_size = 0 then Inl ZeroDivisionError
      else Inr \<lfloor>current_time / of_int window_size\<rfloor>)"

text \<open>\<^verbatim>\<open>int(x)\<close> on a float truncates towards zero.\<close>

definition py_int :: "real \<Rightarrow> int" where
  "py_int x = (if 0 \<le> x then \<lfloor>x\<rfloor> else \<lceil>x\<rceil>)"

section \<open>FixedWindowRateLimiter\<close>

record fw_counter =
  count :: int
  window_start :: int

record FixedWindowRateLimiter =
  fw_limit :: int
  fw_window_size :: int
  counters :: "key \<rightharpoonup> fw_counter"

record fw_stats =
  fws_requests_made :: int
  fws_limit :: int
  fws_remaining :: int
  fws_window_start :: int

definition fw_default :: fw_counter where
  "fw_default = \<lparr>count = 0, window_start = 0\<rparr>"

definition fw_init :: "int \<Rightarrow> int \<Rightarrow> error + FixedWindowRateLimiter" where
  "fw_init limit window_size =
     Inr \<lparr>fw_limit = limit, fw_window_size = window_size, counters = Map.empty\<rparr>"

definition fw_is_allowed ::
  "FixedWindowRateLimiter \<Rightarrow> key \<Rightarrow> real \<Rightarrow> error + (bool \<times> FixedWindowRateLimiter)" where
  "fw_is_allowed L k current_time =
     (case window_of current_time (fw_window_size L) of
        Inl e \<Rightarrow> Inl e
      | Inr current_window \<Rightarrow>
          (let (counter_data, cs) = getitem (counters L) fw_default k;
               counter_data' =
                 (if window_start counter_data \<noteq> current_window
                  then counter_data\<lparr>count := 0, window_start := current_window\<rparr>
                  else counter_data)
           in if count counter_data' < fw_limit L
              then Inr (True,
                     L\<lparr>counters := cs(k \<mapsto> counter_data'\<lparr>count := count counter_data' + 1\<rparr>)\<rparr>)
              else Inr (False, L\<lparr>counters := cs(k \<mapsto> counter_data')\<rparr>)))"

definition fw_get_stats ::
  "FixedWindowRateLimiter \<Rightarrow> key \<Rightarrow> fw_stats \<times> FixedWindowRateLimiter" where
  "fw_get_stats L k =
     (let (counter_data, cs) = getitem (counters L) fw_default k
      in (\<lparr>fws_requests_made = count counter_data,
           fws_limit = fw_limit L,
           fws_remaining = max 0 (fw_limit L - count counter_data),
           fws_window_start = window_start counter_data\<rparr>,
          L\<lparr>counters := cs\<rparr>))"

text \<open>
  A caller issuing \<^verbatim>\<open>is_allowed(k)\<close> once per clock reading of a list, collecting the
  answers; an exception ends the run.
\<close>

fun fw_calls ::
  "FixedWindowRateLimiter \<Rightarrow> key \<Rightarrow> real list \<Rightarrow> error + (bool list \<times> FixedWindowRateLimiter)" where
  "fw_calls L k [] = Inr ([], L)"
| "fw_calls L k (t # ts) =
     (case fw_is_allowed L k t of
        Inl e \<Rightarrow> Inl e
      | Inr (b, L') \<Rightarrow>
          (case fw_calls L' k ts of
             Inl e \<Rightarrow> Inl e
           | Inr (bs, L'') \<Rightarrow> Inr (b # bs, L'')))"

section \<open>SlidingWindowLogRateLimiter\<close>

record SlidingWindowLogRateLimiter =
  swl_limit :: int
  swl_window_size :: int
  logs :: "key \<rightharpoonup> real list"

record swl_stats =
  swls_requests_made :: int
  swls_limit :: int
  swls_remaining :: int
  swls_oldest_request :: "real option"

definition swl_init :: "int \<Rightarrow> int \<Rightarrow> error + SlidingWindowLogRateLimiter" where
  "swl_init limit window_size =
     Inr \<lparr>swl_limit = limit, swl_window_size = window_size, logs = Map.empty\<rparr>"

text \<open>
  The loop \<^verbatim>\<open>while request_log and request_log[0] < cutoff_time: request_log.popleft()\<close>,
  the deque being a list with its left end first.
\<close>

fun purge :: "real \<Rightarrow> real list \<Rightarrow> real list" where
  "purge cutoff_time [] = []"
| "purge cutoff_time (x # xs) = (if x < cutoff_time then purge cutoff_time xs else x # xs)"

definition swl_is_allowed ::
  "SlidingWindowLogRateLimiter \<Rightarrow> key \<Rightarrow> real \<Rightarrow> bool \<times> SlidingWindowLogRateLimiter" where
  "swl_is_allowed L k current_time =
     (let (request_log, ls) = getitem (logs L) [] k;
          cutoff_time = current_time - of_int (swl_window_size L);
          request_log' = purge cutoff_time request_log
      in if int (length request_log') < swl_limit L
         then (True, L\<lparr>logs := ls(k \<mapsto> request_log' @ [current_time])\<rparr>)
         else (False, L\<lparr>logs := ls(k \<mapsto> request_log')\<rparr>))"

definition swl_get_stats ::
  "SlidingWindowLogRateLimiter \<Rightarrow> key \<Rightarrow> real \<Rightarrow> swl_stats \<times> SlidingWindowLogRateLimiter" where
  "swl_get_stats L k current_time =
     (let (request_log, ls) = getitem (logs L) [] k;
          cutoff_time = current_time - of_int (swl_window_size L);
          active_requests = int (length (filter (\<lambda>timestamp. timestamp \<ge> cutoff_time) request_log))
      in (\<lparr>swls_requests_made = active_requests,
           swls_limit = swl_limit L,
           swls_remaining = max 0 (swl_limit L - active_requests),
           swls_oldest_request = (case request_log of [] \<Rightarrow> None | x # _ \<Rightarrow> Some x)\<rparr>,
          L\<lparr>logs := ls\<rparr>))"

fun swl_calls ::
  "SlidingWindowLogRateLimiter \<Rightarrow> key \<Rightarrow> real list \<Rightarrow> bool list \<times> SlidingWindowLogRateLimiter" where
  "swl_calls L k [] = ([], L)"
| "swl_calls L k (t # ts) =
     (let (b, L') = swl_is_allowed L k t;
          (bs, L'') = swl_calls L' k ts
      in (b # bs, L''))"

section \<open>SlidingWindowCounterRateLimiter\<close>

record swc_window =
  current :: int
  previous :: int
  current_start :: int

record SlidingWindowCounterRateLimiter =
  swc_limit :: int
  swc_window_size :: int
  windows :: "key \<rightharpoonup> swc_window"

record swc_stats =
  swcs_weighted_count :: real
  swcs_current_window_requests :: int
  swcs_previous_window_requests :: int
  swcs_limit :: int
  swcs_remaining :: real

definition swc_default :: swc_window where
  "swc_default = \<lparr>current = 0, previous = 0, current_start = 0\<rparr>"

definition swc_init :: "int \<Rightarrow> int \<Rightarrow> error + SlidingWindowCounterRateLimiter" where
  "swc_init limit window_size =
     Inr \<lparr>swc_limit = limit, swc_window_size = window_size, windows = Map.empty\<rparr>"

text \<open>The rollover block of \<^verbatim>\<open>is_allowed\<close> (``check if we need to slide the window'').\<close>

definition slide :: "int \<Rightarrow> swc_window \<Rightarrow> swc_window" where
  "slide current_window window_data =
     (if current_start window_data \<noteq> current_window
      then (if current_start window_data = current_window - 1
            then window_data\<lparr>previous := current window_data\<rparr>
            else window_data\<lparr>previous := 0\<rparr>)
           \<lparr>current := 0, current_start := current_window\<rparr>
      else window_data)"

text \<open>
  The three lines computing \<^verbatim>\<open>time_in_current_window\<close>, \<^verbatim>\<open>weight\<close> and
  \<^verbatim>\<open>weighted_count\<close>, which \<^verbatim>\<open>is_allowed\<close> and \<^verbatim>\<open>get_stats\<close> share word for word.
  They run only after \<^verbatim>\<open>//\<close> has succeeded, so the divisor is not zero there.
\<close>

definition weighted_count :: "int \<Rightarrow> real \<Rightarrow> int \<Rightarrow> swc_window \<Rightarrow> real" where
  "weighted_count window_size current_time current_window window_data =
     (let time_in_current_window = current_time - of_int (current_window * window_size);
          weight = 1 - time_in_current_window / of_int window_size
      in of_int (previous window_data) * weight + of_int (current window_data))"

definition swc_is_allowed ::
  "SlidingWindowCounterRateLimiter \<Rightarrow> key \<Rightarrow> real \<Rightarrow>
     error + (bool \<times> SlidingWindowCounterRateLimiter)" where
  "swc_is_allowed L k current_time =
     (case window_of current_time (swc_window_size L) of
        Inl e \<Rightarrow> Inl e
      | Inr current_window \<Rightarrow>
          (let (window_data, ws) = getitem (windows L) swc_default k;
               window_data' = slide current_window window_data
           in if weighted_count (swc_window_size L) current_time current_window window_data'
                   < of_int (swc_limit L)
              then Inr (True,
                     L\<lparr>windows := ws(k \<mapsto> window_data'\<lparr>current := current window_data' + 1\<rparr>)\<rparr>)
              else Inr (False, L\<lparr>windows := ws(k \<mapsto> window_data')\<rparr>)))"

definition swc_get_stats ::
  "SlidingWindowCounterRateLimiter \<Rightarrow> key \<Rightarrow> real \<Rightarrow>
     error + (swc_stats \<times> SlidingWindowCounterRateLimiter)" where
  "swc_get_stats L k current_time =
     (case window_of current_time (swc_window_size L) of
        Inl e \<Rightarrow> Inl e
      | Inr current_window \<Rightarrow>
          (let (window_data, ws) = getitem (windows L) swc_default k;
               wc = weighted_count (swc_window_size L) current_time current_window window_data
           in Inr (\<lparr>swcs_weighted_count = wc,
                    swcs_current_window_requests = current window_data,
                    swcs_previous_window_requests = previous window_data,
                    swcs_limit = swc_limit L,
                    swcs_remaining = max 0 (of_int (swc_limit L) - wc)\<rparr>,
                   L\<lparr>windows := ws\<rparr>)))"

section \<open>TokenBucketRateLimiter\<close>

record tb_bucket =
  tokens :: real
  last_refill :: real

record TokenBucketRateLimiter =
  tb_capacity :: int
  refill_rate :: real
  tb_buckets :: "key \<rightharpoonup> tb_bucket"

record tb_stats =
  tbs_available_tokens :: real
  tbs_capacity :: int
  tbs_refill_rate :: real
  tbs_last_refill :: real

definition tb_init :: "int \<Rightarrow> real \<Rightarrow> error + TokenBucketRateLimiter" where
  "tb_init capacity rate =
     Inr \<lparr>tb_capacity = capacity, refill_rate = rate, tb_buckets = Map.empty\<rparr>"

text \<open>
  The factory \<^verbatim>\<open>lambda: {'tokens': capacity, 'last_refill': time.time()}\<close> takes a clock
  reading of its own at the moment a missing key is looked up; \<open>factory_time\<close> is that
  reading.
\<close>

definition tb_default :: "TokenBucketRateLimiter \<Rightarrow> real \<Rightarrow> tb_bucket" where
  "tb_default L factory_time = \<lparr>tokens = of_int (tb_capacity L), last_refill = factory_time\<rparr>"

text \<open>
  \<^verbatim>\<open>is_allowed\<close> reads the clock first (\<open>current_time\<close>) and looks the key up second, so
  for a missing key the factory's reading \<open>factory_time\<close> is taken after \<open>current_time\<close>.
  For a present key the factory does not run and \<open>factory_time\<close> is not used.
\<close>

definition tb_is_allowed ::
  "TokenBucketRateLimiter \<Rightarrow> key \<Rightarrow> int \<Rightarrow> real \<Rightarrow> real \<Rightarrow> bool \<times> TokenBucketRateLimiter" where
  "tb_is_allowed L k tokens_requested current_time factory_time =
     (let (bucket, bs) = getitem (tb_buckets L) (tb_default L factory_time) k;
          time_passed = current_time - last_refill bucket;
          tokens_to_add = time_passed * refill_rate L;
          bucket' = bucket\<lparr>tokens := min (of_int (tb_capacity L)) (tokens bucket + tokens_to_add),
                           last_refill := current_time\<rparr>
      in if tokens bucket' \<ge> of_int tokens_requested
         then (True, L\<lparr>tb_buckets := bs(k \<mapsto> bucket'\<lparr>tokens := tokens bucket' - of_int tokens_requested\<rparr>)\<rparr>)
         else (False, L\<lparr>tb_buckets := bs(k \<mapsto> bucket')\<rparr>))"

definition tb_get_stats ::
  "TokenBucketRateLimiter \<Rightarrow> key \<Rightarrow> real \<Rightarrow> tb_stats \<times> TokenBucketRateLimiter" where
  "tb_get_stats L k factory_time =
     (let (bucket, bs) = getitem (tb_buckets L) (tb_default L factory_time) k
      in (\<lparr>tbs_available_tokens = tokens bucket,
           tbs_capacity = tb_capacity L,
           tbs_refill_rate = refill_rate L,
           tbs_last_refill = last_refill bucket\<rparr>,
          L\<lparr>tb_buckets := bs\<rparr>))"

section \<open>LeakyBucketRateLimiter\<close>

record lb_bucket =
  queue :: "real list"
  last_leak :: real

record LeakyBucketRateLimiter =
  lb_capacity :: int
  leak_rate :: real
  lb_buckets :: "key \<rightharpoonup> lb_bucket"

record lb_stats =
  lbs_queue_size :: int
  lbs_capacity :: int
  lbs_leak_rate :: real
  lbs_last_leak :: real

definition lb_init :: "int \<Rightarrow> real \<Rightarrow> error + LeakyBucketRateLimiter" where
  "lb_init capacity rate =
     Inr \<lparr>lb_capacity = capacity, leak_rate = rate, lb_buckets = Map.empty\<rparr>"

definition lb_default :: "real \<Rightarrow> lb_bucket" where
  "lb_default factory_time = \<lparr>queue = [], last_leak = factory_time\<rparr>"

text \<open>
  \<^verbatim>\<open>for _ in range(n): queue.popleft()\<close>.  The source bounds \<open>n\<close> by the queue's length,
  so \<^verbatim>\<open>popleft\<close> never meets an empty deque; a negative \<open>n\<close> is an empty range.
\<close>

fun popleft_times :: "nat \<Rightarrow> real list \<Rightarrow> real list" where
  "popleft_times 0 q = q"
| "popleft_times (Suc n) q = popleft_times n (tl q)"

definition lb_is_allowed ::
  "LeakyBucketRateLimiter \<Rightarrow> key \<Rightarrow> real \<Rightarrow> real \<Rightarrow> bool \<times> LeakyBucketRateLimiter" where
  "lb_is_allowed L k current_time factory_time =
     (let (bucket, bs) = getitem (lb_buckets L) (lb_default factory_time) k;
          time_passed = current_time - last_leak bucket;
          requests_to_leak = py_int (time_passed * leak_rate L);
          q = popleft_times (nat (min requests_to_leak (int (length (queue bucket))))) (queue bucket);
          bucket' = bucket\<lparr>queue := q, last_leak := current_time\<rparr>
      in if int (length q) < lb_capacity L
         then (True, L\<lparr>lb_buckets := bs(k \<mapsto> bucket'\<lparr>queue := q @ [current_time]\<rparr>)\<rparr>)
         else (False, L\<lparr>lb_buckets := bs(k \<mapsto> bucket')\<rparr>))"

definition lb_get_stats ::
  "LeakyBucketRateLimiter \<Rightarrow> key \<Rightarrow> real \<Rightarrow> lb_stats \<times> LeakyBucketRateLimiter" where
  "lb_get_stats L k factory_time =
     (let (bucket, bs) = getitem (lb_buckets L) (lb_default factory_time) k
      in (\<lparr>lbs_queue_size = int (length (queue bucket)),
           lbs_capacity = lb_capacity L,
           lbs_leak_rate = leak_rate L,
           lbs_last_leak = last_leak bucket\<rparr>,
          L\<lparr>lb_buckets := bs\<rparr>))"

text \<open>
  A caller's sequence of \<^verbatim>\<open>is_allowed\<close> calls, each with its key and its two clock
  readings.
\<close>

fun lb_calls ::
  "LeakyBucketRateLimiter \<Rightarrow> (key \<times> real \<times> real) list \<Rightarrow> LeakyBucketRateLimiter" where
  "lb_calls L [] = L"
| "lb_calls L ((k, current_time, factory_time) # cs) =
     lb_calls (snd (lb_is_allowed L k current_time factory_time)) cs"

text \<open>The bound on every stored queue that the leaky bucket is to keep.\<close>

definition lb_inv :: "LeakyBucketRateLimiter \<Rightarrow> bool" where
  "lb_inv L = (\<forall>k b. lb_buckets L k = Some b \<longrightarrow> int (length (queue b)) \<le> lb_capacity L)"

text \<open>
  A caller's sequence of token bucket \<^verbatim>\<open>is_allowed\<close> calls: key, tokens requested, the
  call's clock reading and the factory's reading (used for a missing key only).
\<close>

fun tb_calls ::
  "TokenBucketRateLimiter \<Rightarrow> (key \<times> int \<times> real \<times> real) list \<Rightarrow> TokenBucketRateLimiter" where
  "tb_calls L [] = L"
| "tb_calls L ((k, tokens_requested, current_time, factory_time) # cs) =
     tb_calls (snd (tb_is_allowed L k tokens_requested current_time factory_time)) cs"

text \<open>
  Every stored bucket holds between 0 and capacity tokens and was last refilled no later
  than \<open>now\<close>.
\<close>

definition tb_inv :: "TokenBucketRateLimiter \<Rightarrow> real \<Rightarrow> bool" where
  "tb_inv L now =
     (\<forall>k b. tb_buckets L k = Some b \<longrightarrow>
        0 \<le> tokens b \<and> tokens b \<le> of_int (tb_capacity L) \<and> last_refill b \<le> now)"

text \<open>
  A call sequence in which the clock never goes back from one call to the next and does
  not advance within a call (the factory reads the same time as the call), each call
  asking for a positive number of tokens.
\<close>

fun instantaneous :: "real \<Rightarrow> (key \<times> int \<times> real \<times> real) list \<Rightarrow> bool" where
  "instantaneous now [] = True"
| "instantaneous now ((k, tokens_requested, current_time, factory_time) # cs) =
     (now \<le> current_time \<and> factory_time = current_time \<and> 0 < tokens_requested
      \<and> instantaneous current_time cs)"

section \<open>Auxiliary facts\<close>

subsection \<open>The loops and the window arithmetic\<close>

lemma purge_dropWhile: "purge c xs = dropWhile (\<lambda>x. x < c) xs"
  by (induction xs) simp_all

lemma popleft_times_drop: "popleft_times n q = drop n q"
  by (induction n arbitrary: q) (simp_all add: drop_Suc)

lemma window_of_99: "window_of (99 / 10) 10 = Inr 0"
  by (simp add: window_of_def)

lemma window_of_101: "window_of (101 / 10) 10 = Inr 1"
  by (simp add: window_of_def)

text \<open>
  The weight \<open>1 - (t - w * size) / size\<close> with \<open>w = \<lfloor>t / size\<rfloor>\<close> is one minus the
  fractional part of \<open>t / size\<close>, whatever the sign of the window size.
\<close>

lemma weight_bounds:
  assumes "ws \<noteq> 0"
  shows "0 < 1 - (t - of_int (\<lfloor>t / of_int ws\<rfloor> * ws)) / real_of_int ws"
    and "1 - (t - of_int (\<lfloor>t / of_int ws\<rfloor> * ws)) / real_of_int ws \<le> 1"
proof -
  have "(t - of_int (\<lfloor>t / of_int ws\<rfloor> * ws)) / real_of_int ws = frac (t / of_int ws)"
    using assms by (simp add: frac_def field_simps)
  then show "0 < 1 - (t - of_int (\<lfloor>t / of_int ws\<rfloor> * ws)) / real_of_int ws"
    and "1 - (t - of_int (\<lfloor>t / of_int ws\<rfloor> * ws)) / real_of_int ws \<le> 1"
    using frac_lt_1 [of "t / of_int ws"] frac_ge_0 [of "t / of_int ws"] by simp_all
qed

lemma weighted_count_bounds:
  assumes "window_of t ws = Inr cw" and "0 \<le> previous wd"
  shows "of_int (current wd) \<le> weighted_count ws t cw wd"
    and "weighted_count ws t cw wd \<le> of_int (current wd + previous wd)"
proof -
  from assms(1) have ws: "ws \<noteq> 0" and cw: "cw = \<lfloor>t / of_int ws\<rfloor>"
    by (auto simp: window_of_def split: if_splits)
  define weight where "weight = 1 - (t - of_int (cw * ws)) / real_of_int ws"
  have w: "0 < weight" "weight \<le> 1"
    using weight_bounds [OF ws, of t] by (simp_all add: weight_def cw)
  have eq: "weighted_count ws t cw wd = of_int (previous wd) * weight + of_int (current wd)"
    by (simp add: weighted_count_def weight_def Let_def)
  have p: "0 \<le> real_of_int (previous wd)" using assms(2) by simp
  have "0 \<le> of_int (previous wd) * weight" using p w(1) by simp
  then show "of_int (current wd) \<le> weighted_count ws t cw wd" by (simp add: eq)
  have "of_int (previous wd) * weight \<le> of_int (previous wd) * 1"
    using p w(2) by (rule mult_left_mono[rotated])
  then show "weighted_count ws t cw wd \<le> of_int (current wd + previous wd)" by (simp add: eq)
qed

lemma swl_is_allowed_step:
  "swl_is_allowed L k t =
     (let q = dropWhile (\<lambda>x. x < t - of_int (swl_window_size L))
                (case logs L k of None \<Rightarrow> [] | Some xs \<Rightarrow> xs)
      in if int (length q) < swl_limit L
         then (True, L\<lparr>logs := (logs L)(k \<mapsto> q @ [t])\<rparr>)
         else (False, L\<lparr>logs := (logs L)(k \<mapsto> q)\<rparr>))"
  by (simp add: swl_is_allowed_def getitem_def purge_dropWhile Let_def split: option.split)

lemma slide_nonneg:
  assumes "0 \<le> current wd" and "0 \<le> previous wd"
  shows "0 \<le> current (slide cw wd)" and "0 \<le> previous (slide cw wd)"
  using assms by (simp_all add: slide_def)

subsection \<open>One call of the leaky bucket and of the token bucket, and their invariants\<close>

lemma lb_is_allowed_step:
  "lb_is_allowed L k t ft =
    (let b = (case lb_buckets L k of None \<Rightarrow> lb_default ft | Some b \<Rightarrow> b);
         n = nat (min (py_int ((t - last_leak b) * leak_rate L)) (int (length (queue b))));
         q = drop n (queue b)
     in if int (length q) < lb_capacity L
        then (True, L\<lparr>lb_buckets := (lb_buckets L)(k \<mapsto> \<lparr>queue = q @ [t], last_leak = t\<rparr>)\<rparr>)
        else (False, L\<lparr>lb_buckets := (lb_buckets L)(k \<mapsto> \<lparr>queue = q, last_leak = t\<rparr>)\<rparr>))"
proof (cases "lb_buckets L k")
  case None
  then show ?thesis
    by (simp add: lb_is_allowed_def getitem_def popleft_times_drop Let_def lb_default_def)
next
  case (Some b)
  then show ?thesis
    by (cases b) (simp add: lb_is_allowed_def getitem_def popleft_times_drop Let_def)
qed

lemma lb_inv_step:
  assumes "lb_inv L" and "0 \<le> lb_capacity L"
  shows "lb_inv (snd (lb_is_allowed L k t ft))"
    and "lb_capacity (snd (lb_is_allowed L k t ft)) = lb_capacity L"
proof -
  define b where "b = (case lb_buckets L k of None \<Rightarrow> lb_default ft | Some b \<Rightarrow> b)"
  define q where
    "q = drop (nat (min (py_int ((t - last_leak b) * leak_rate L)) (int (length (queue b)))))
           (queue b)"
  define q' where "q' = (if int (length q) < lb_capacity L then q @ [t] else q)"
  have "int (length (queue b)) \<le> lb_capacity L"
    using assms by (auto simp: b_def lb_inv_def lb_default_def split: option.splits)
  moreover have "length q \<le> length (queue b)"
    by (simp add: q_def)
  ultimately have lenq: "int (length q') \<le> lb_capacity L"
    by (simp add: q'_def)
  have res: "snd (lb_is_allowed L k t ft) =
      L\<lparr>lb_buckets := (lb_buckets L)(k \<mapsto> \<lparr>queue = q', last_leak = t\<rparr>)\<rparr>"
    by (simp add: lb_is_allowed_step b_def q_def q'_def Let_def)
  show "lb_inv (snd (lb_is_allowed L k t ft))"
    using assms(1) lenq by (simp add: res lb_inv_def)
  show "lb_capacity (snd (lb_is_allowed L k t ft)) = lb_capacity L"
    by (simp add: res)
qed

lemma lb_inv_calls:
  assumes "lb_inv L" and "0 \<le> lb_capacity L"
  shows "lb_inv (lb_calls L cs) \<and> lb_capacity (lb_calls L cs) = lb_capacity L"
  using assms
proof (induction cs arbitrary: L)
  case Nil
  then show ?case by simp
next
  case (Cons c cs)
  obtain k t ft where c: "c = (k, t, ft)" by (cases c)
  from Cons.prems have "lb_inv (snd (lb_is_allowed L k t ft))"
    and "lb_capacity (snd (lb_is_allowed L k t ft)) = lb_capacity L"
    by (rule lb_inv_step)+
  with Cons.IH [of "snd (lb_is_allowed L k t ft)"] Cons.prems(2) show ?case
    by (simp add: c)
qed

lemma tb_is_allowed_step:
  "tb_is_allowed L k c t ft =
    (let b = (case tb_buckets L k of None \<Rightarrow> tb_default L ft | Some b \<Rightarrow> b);
         r = min (of_int (tb_capacity L)) (tokens b + (t - last_refill b) * refill_rate L)
     in if of_int c \<le> r
        then (True, L\<lparr>tb_buckets := (tb_buckets L)(k \<mapsto> \<lparr>tokens = r - of_int c, last_refill = t\<rparr>)\<rparr>)
        else (False, L\<lparr>tb_buckets := (tb_buckets L)(k \<mapsto> \<lparr>tokens = r, last_refill = t\<rparr>)\<rparr>))"
proof (cases "tb_buckets L k")
  case None
  then show ?thesis
    by (simp add: tb_is_allowed_def getitem_def Let_def tb_default_def)
next
  case (Some b)
  then show ?thesis
    by (cases b) (simp add: tb_is_allowed_def getitem_def Let_def)
qed

lemma tb_inv_step:
  assumes "tb_inv L now" and "now \<le> t" and "0 < c" and "0 \<le> tb_capacity L"
    and "0 \<le> refill_rate L"
  shows "tb_inv (snd (tb_is_allowed L k c t t)) t"
    and "tb_capacity (snd (tb_is_allowed L k c t t)) = tb_capacity L"
    and "refill_rate (snd (tb_is_allowed L k c t t)) = refill_rate L"
proof -
  define b where "b = (case tb_buckets L k of None \<Rightarrow> tb_default L t | Some b \<Rightarrow> b)"
  define r where "r = min (of_int (tb_capacity L)) (tokens b + (t - last_refill b) * refill_rate L)"
  define r' where "r' = (if of_int c \<le> r then r - of_int c else r)"
  have b: "0 \<le> tokens b \<and> tokens b \<le> of_int (tb_capacity L) \<and> last_refill b \<le> t"
  proof (cases "tb_buckets L k")
    case None
    then show ?thesis
      using assms(4) by (simp add: b_def tb_default_def)
  next
    case (Some b0)
    with assms(1) have "0 \<le> tokens b0 \<and> tokens b0 \<le> of_int (tb_capacity L) \<and> last_refill b0 \<le> now"
      by (simp add: tb_inv_def)
    with assms(2) Some show ?thesis
      by (simp add: b_def)
  qed
  have "0 \<le> (t - last_refill b) * refill_rate L"
    using b assms(5) by simp
  then have r: "0 \<le> r" "r \<le> of_int (tb_capacity L)"
    using b assms(4) by (simp_all add: r_def)
  have r': "0 \<le> r'" "r' \<le> of_int (tb_capacity L)"
    using r assms(3) by (simp_all add: r'_def)
  have res: "snd (tb_is_allowed L k c t t) =
      L\<lparr>tb_buckets := (tb_buckets L)(k \<mapsto> \<lparr>tokens = r', last_refill = t\<rparr>)\<rparr>"
    by (simp add: tb_is_allowed_step b_def r_def r'_def Let_def)
  have "last_refill b' \<le> t" if "tb_buckets L k' = Some b'" for k' b'
    using assms(1,2) that by (force simp: tb_inv_def)
  then show "tb_inv (snd (tb_is_allowed L k c t t)) t"
    using assms(1) r' by (simp add: res tb_inv_def)
  show "tb_capacity (snd (tb_is_allowed L k c t t)) = tb_capacity L"
    and "refill_rate (snd (tb_is_allowed L k c t t)) = refill_rate L"
    by (simp_all add: res)
qed

lemma tb_inv_calls:
  assumes "tb_inv L now" and "instantaneous now cs" and "0 \<le> tb_capacity L"
    and "0 \<le> refill_rate L"
  shows "\<exists>now'. tb_inv (tb_calls L cs) now' \<and> tb_capacity (tb_calls L cs) = tb_capacity L"
  using assms
proof (induction cs arbitrary: L now)
  case Nil
  then show ?case by auto
next
  case (Cons x cs)
  obtain k c t ft where x: "x = (k, c, t, ft)" by (cases x)
  from Cons.prems(2) have h: "now \<le> t" "ft = t" "0 < c" "instantaneous t cs"
    by (simp_all add: x)
  let ?L = "snd (tb_is_allowed L k c t t)"
  have "tb_inv ?L t" and cap: "tb_capacity ?L = tb_capacity L"
    and rate: "refill_rate ?L = refill_rate L"
    using Cons.prems(1) h(1,3) Cons.prems(3,4) by (rule tb_inv_step)+
  with Cons.IH [of ?L t] h(4) Cons.prems(3,4) show ?case
    by (simp add: x h(2))
qed

lemma tb_tokens_le_capacity:
  assumes "\<forall>k b. tb_buckets L k = Some b \<longrightarrow> tokens b \<le> of_int (tb_capacity L)"
    and "0 \<le> c" and "tb_buckets (snd (tb_is_allowed L k c t ft)) k' = Some b'"
  shows "tokens b' \<le> of_int (tb_capacity L)"
  using assms by (auto simp: tb_is_allowed_step Let_def split: if_splits)

subsection \<open>What the statistics do to the key map\<close>

lemma fw_get_stats_frame:
  "snd (fw_get_stats L k) =
     (case counters L k of None \<Rightarrow> L\<lparr>counters := (counters L)(k \<mapsto> fw_default)\<rparr> | Some c \<Rightarrow> L)"
  "fw_get_stats (snd (fw_get_stats L k)) k = fw_get_stats L k"
  by (simp_all add: fw_get_stats_def getitem_def split: option.split)

lemma swl_get_stats_frame:
  "snd (swl_get_stats L k t) =
     (case logs L k of None \<Rightarrow> L\<lparr>logs := (logs L)(k \<mapsto> [])\<rparr> | Some c \<Rightarrow> L)"
  "swl_get_stats (snd (swl_get_stats L k t)) k t = swl_get_stats L k t"
  by (simp_all add: swl_get_stats_def getitem_def Let_def split: option.split)

lemma swc_get_stats_frame:
  "(case swc_get_stats L k t of Inl e \<Rightarrow> L | Inr (st, L') \<Rightarrow> L') =
     (case window_of t (swc_window_size L) of
        Inl e \<Rightarrow> L
      | Inr w \<Rightarrow> (case windows L k of
                    None \<Rightarrow> L\<lparr>windows := (windows L)(k \<mapsto> swc_default)\<rparr>
                  | Some c \<Rightarrow> L))"
  "swc_get_stats (case swc_get_stats L k t of Inl e \<Rightarrow> L | Inr (st, L') \<Rightarrow> L') k t
     = swc_get_stats L k t"
  by (simp_all add: swc_get_stats_def getitem_def Let_def split: option.split sum.split)

lemma tb_get_stats_frame:
  "snd (tb_get_stats L k ft) =
     (case tb_buckets L k of
        None \<Rightarrow> L\<lparr>tb_buckets := (tb_buckets L)(k \<mapsto> tb_default L ft)\<rparr>
      | Some c \<Rightarrow> L)"
  "tb_get_stats (snd (tb_get_stats L k ft)) k ft = tb_get_stats L k ft"
  by (simp_all add: tb_get_stats_def getitem_def tb_default_def split: option.split)

lemma lb_get_stats_frame:
  "snd (lb_get_stats L k ft) =
     (case lb_buckets L k of
        None \<Rightarrow> L\<lparr>lb_buckets := (lb_buckets L)(k \<mapsto> lb_default ft)\<rparr>
      | Some c \<Rightarrow> L)"
  "lb_get_stats (snd (lb_get_stats L k ft)) k ft = lb_get_stats L k ft"
  by (simp_all add: lb_get_stats_def getitem_def split: option.split)

subsection \<open>The first call for an unseen key\<close>

lemma first_call_admitted:
  "counters L1 k = None \<Longrightarrow> 0 < fw_limit L1 \<Longrightarrow> fw_window_size L1 \<noteq> 0 \<Longrightarrow>
     map_sum id fst (fw_is_allowed L1 k t) = Inr True"
  "logs L2 k = None \<Longrightarrow> 0 < swl_limit L2 \<Longrightarrow> fst (swl_is_allowed L2 k t) = True"
  "windows L3 k = None \<Longrightarrow> 0 < swc_limit L3 \<Longrightarrow> swc_window_size L3 \<noteq> 0 \<Longrightarrow>
     map_sum id fst (swc_is_allowed L3 k t) = Inr True"
  "lb_buckets L5 k = None \<Longrightarrow> 0 < lb_capacity L5 \<Longrightarrow> fst (lb_is_allowed L5 k t ft) = True"
  by (simp_all add: fw_is_allowed_def swl_is_allowed_def swc_is_allowed_def lb_is_allowed_step
      getitem_def window_of_def fw_default_def swc_default_def slide_def weighted_count_def
      lb_default_def Let_def)

lemma tb_first_call:
  assumes "tb_buckets L k = None"
  shows "fst (tb_is_allowed L k c t ft) =
           (of_int c \<le> min (real_of_int (tb_capacity L))
                          (of_int (tb_capacity L) + (t - ft) * refill_rate L))"
  using assms by (simp add: tb_is_allowed_step tb_default_def Let_def)

lemma tb_tokens_in_range_instantaneous:
  assumes "0 < capacity" and "0 < rate" and "tb_init capacity rate = Inr L0"
    and "instantaneous now cs" and "tb_buckets (tb_calls L0 cs) k = Some b"
  shows "0 \<le> tokens b \<and> tokens b \<le> of_int capacity"
proof -
  from assms(3) have L0: "L0 = \<lparr>tb_capacity = capacity, refill_rate = rate, tb_buckets = Map.empty\<rparr>"
    by (simp add: tb_init_def)
  have "tb_inv L0 now" and "0 \<le> tb_capacity L0" and "0 \<le> refill_rate L0"
    using assms(1,2) by (simp_all add: L0 tb_inv_def)
  with assms(4) obtain now' where "tb_inv (tb_calls L0 cs) now'"
    and "tb_capacity (tb_calls L0 cs) = tb_capacity L0"
    using tb_inv_calls [of L0 now cs] by blast
  moreover have "tb_capacity L0 = capacity"
    by (simp add: L0)
  ultimately show ?thesis
    using assms(5) by (auto simp: tb_inv_def)
qed

section \<open>Fixed window: the burst at the window boundary\<close>

text \<open>
  Claim C3.  A FixedWindowRateLimiter with limit 5 and window size 10 that has never seen
  key \<open>k\<close> answers true to five \<^verbatim>\<open>is_allowed\<close> calls at time 9.9 and to five more at time
  10.1: all ten requests are admitted, the count of the key ending at 5 in window 1.
\<close>

theorem fw_double_burst:
  assumes "fw_limit L = 5" and "fw_window_size L = 10" and "counters L k = None"
  shows "fw_calls L k
           [99 / 10, 99 / 10, 99 / 10, 99 / 10, 99 / 10,
            101 / 10, 101 / 10, 101 / 10, 101 / 10, 101 / 10]
       = Inr ([True, True, True, True, True, True, True, True, True, True],
              L\<lparr>counters := (counters L)(k \<mapsto> \<lparr>count = 5, window_start = 1\<rparr>)\<rparr>)"
  using assms by (simp add: fw_is_allowed_def getitem_def fw_default_def window_of_99 window_of_101)

theorem fw_double_burst_witness:
  "fw_init 5 10 = Inr \<lparr>fw_limit = 5, fw_window_size = 10, counters = Map.empty\<rparr>
   \<and> fw_calls \<lparr>fw_limit = 5, fw_window_size = 10, counters = Map.empty\<rparr> ''user1''
        [99 / 10, 99 / 10, 99 / 10, 99 / 10, 99 / 10,
         101 / 10, 101 / 10, 101 / 10, 101 / 10, 101 / 10]
     = Inr ([True, True, True, True, True, True, True, True, True, True],
            \<lparr>fw_limit = 5, fw_window_size = 10,
             counters = [''user1'' \<mapsto> \<lparr>count = 5, window_start = 1\<rparr>]\<rparr>)"
  using fw_double_burst
    [of "\<lparr>fw_limit = 5, fw_window_size = 10, counters = Map.empty\<rparr>" "''user1''"]
  by (simp add: fw_init_def)

section \<open>Fixed window: statistics do not roll the window over\<close>

text \<open>
  Claim C10.  Let key \<open>k\<close> hold a count \<open>n\<close> recorded in window \<open>window_start c\<close>, and let the
  clock now be in a different window \<open>w\<close>.  Then \<^verbatim>\<open>get_stats\<close> still reports
  \<open>requests_made = n\<close> and \<open>remaining = max 0 (limit - n)\<close> with the stale window index, and
  leaves the limiter as it is, although the next \<^verbatim>\<open>is_allowed\<close> call for \<open>k\<close> resets the
  count and returns true (the limit being positive).
\<close>

theorem fw_get_stats_no_rollover:
  assumes "counters L k = Some c"
    and "window_of t (fw_window_size L) = Inr w"
    and "window_start c \<noteq> w"
    and "0 < fw_limit L"
  shows "fws_requests_made (fst (fw_get_stats L k)) = count c
       \<and> fws_remaining (fst (fw_get_stats L k)) = max 0 (fw_limit L - count c)
       \<and> fws_window_start (fst (fw_get_stats L k)) = window_start c
       \<and> snd (fw_get_stats L k) = L
       \<and> fw_is_allowed L k t =
           Inr (True, L\<lparr>counters := (counters L)(k \<mapsto> \<lparr>count = 1, window_start = w\<rparr>)\<rparr>)"
  using assms by (cases c) (simp add: fw_get_stats_def fw_is_allowed_def getitem_def)

theorem fw_get_stats_no_rollover_witness:
  "fws_requests_made
     (fst (fw_get_stats
        \<lparr>fw_limit = 5, fw_window_size = 10,
         counters = [''user1'' \<mapsto> \<lparr>count = 5, window_start = 0\<rparr>]\<rparr> ''user1'')) = 5
   \<and> fws_remaining
     (fst (fw_get_stats
        \<lparr>fw_limit = 5, fw_window_size = 10,
         counters = [''user1'' \<mapsto> \<lparr>count = 5, window_start = 0\<rparr>]\<rparr> ''user1'')) = 0
   \<and> fw_is_allowed
        \<lparr>fw_limit = 5, fw_window_size = 10,
         counters = [''user1'' \<mapsto> \<lparr>count = 5, window_start = 0\<rparr>]\<rparr> ''user1'' (101 / 10)
      = Inr (True,
          \<lparr>fw_limit = 5, fw_window_size = 10,
           counters = [''user1'' \<mapsto> \<lparr>count = 1, window_start = 1\<rparr>]\<rparr>)"
  using fw_get_stats_no_rollover
    [of "\<lparr>fw_limit = 5, fw_window_size = 10,
          counters = [''user1'' \<mapsto> \<lparr>count = 5, window_start = 0\<rparr>]\<rparr>"
        "''user1''" "\<lparr>count = 5, window_start = 0\<rparr>" "101 / 10" 1]
  by (simp add: window_of_101)

section \<open>Sliding window log: the accuracy scenario\<close>

text \<open>
  Claim C4.  A SlidingWindowLogRateLimiter with limit 3 and window size 5 that has never
  seen key \<open>k\<close> answers true to three calls at time 0 and false to a fourth at time 1, the
  log then holding the three timestamps 0; a call at time 6 is answered true, because the
  entries older than the cutoff \<open>6 - 5\<close> are dropped from the front before the check, and
  the admitted call appends its own time, leaving the log \<open>[6]\<close>.  In general a call at
  time \<open>t\<close> first drops from the front of the log the entries strictly below
  \<open>t - window_size\<close>, admits iff fewer than \<open>limit\<close> entries remain, and appends \<open>t\<close> on
  admission.
\<close>

theorem swl_accuracy:
  assumes "swl_limit L = 3" and "swl_window_size L = 5" and "logs L k = None"
  shows "swl_calls L k [0, 0, 0, 1] =
           ([True, True, True, False], L\<lparr>logs := (logs L)(k \<mapsto> [0, 0, 0])\<rparr>)
       \<and> swl_calls L k [0, 0, 0, 1, 6] =
           ([True, True, True, False, True], L\<lparr>logs := (logs L)(k \<mapsto> [6])\<rparr>)
       \<and> swl_is_allowed M k' t =
           (let q = dropWhile (\<lambda>x. x < t - of_int (swl_window_size M))
                      (case logs M k' of None \<Rightarrow> [] | Some xs \<Rightarrow> xs)
            in if int (length q) < swl_limit M
               then (True, M\<lparr>logs := (logs M)(k' \<mapsto> q @ [t])\<rparr>)
               else (False, M\<lparr>logs := (logs M)(k' \<mapsto> q)\<rparr>))"
proof -
  have run: "swl_calls L k [0, 0, 0, 1] =
           ([True, True, True, False], L\<lparr>logs := (logs L)(k \<mapsto> [0, 0, 0])\<rparr>)
       \<and> swl_calls L k [0, 0, 0, 1, 6] =
           ([True, True, True, False, True], L\<lparr>logs := (logs L)(k \<mapsto> [6])\<rparr>)"
    using assms by (simp add: swl_is_allowed_def getitem_def)
  with swl_is_allowed_step [of M k' t] show ?thesis
    by blast
qed

theorem swl_accuracy_witness:
  "swl_init 3 5 = Inr \<lparr>swl_limit = 3, swl_window_size = 5, logs = Map.empty\<rparr>
   \<and> swl_calls \<lparr>swl_limit = 3, swl_window_size = 5, logs = Map.empty\<rparr> ''user3''
        [0, 0, 0, 1, 6] =
     ([True, True, True, False, True],
      \<lparr>swl_limit = 3, swl_window_size = 5, logs = [''user3'' \<mapsto> [6]]\<rparr>)"
  using swl_accuracy [of "\<lparr>swl_limit = 3, swl_window_size = 5, logs = Map.empty\<rparr>" "''user3''"]
  by (simp add: swl_init_def)

section \<open>Token bucket: a cost above the capacity\<close>

text \<open>
  Claim C6.  Whatever the limiter's state, the key and the clock readings, an
  \<^verbatim>\<open>is_allowed\<close> call asking for more tokens than the capacity returns false.  The
  operation has no failing branch, so the answer is an ordinary rejection.
\<close>

theorem tb_cost_over_capacity:
  assumes "tb_capacity L < tokens_requested"
  shows "fst (tb_is_allowed L k tokens_requested current_time factory_time) = False"
  using assms by (auto simp: tb_is_allowed_def Let_def split: prod.split)

theorem tb_cost_over_capacity_witness:
  "fst (tb_is_allowed \<lparr>tb_capacity = 5, refill_rate = 1, tb_buckets = Map.empty\<rparr>
          ''user2'' 6 100 100) = False"
  using tb_cost_over_capacity
    [of "\<lparr>tb_capacity = 5, refill_rate = 1, tb_buckets = Map.empty\<rparr>" 6 "''user2''" 100 100]
  by simp

section \<open>Sliding window counter: the weighted count is bracketed\<close>

text \<open>
  Claim C5.  Let the key's window record (the baseline record for an unseen key) have
  \<open>current \<ge> 0\<close> and \<open>previous \<ge> 0\<close>, and let the clock reading lie in window
  \<open>current_window\<close>.  The weighted count that \<^verbatim>\<open>get_stats\<close> reports is
  \<open>previous * weight + current\<close> with \<open>weight = 1 - (now - window * size) / size\<close>, and it
  lies between \<open>current\<close> and \<open>current + previous\<close>.  The weighted count that
  \<^verbatim>\<open>is_allowed\<close> compares with the limit is the same expression on the record after the
  rollover step, and lies between that record's \<open>current\<close> and \<open>current + previous\<close>.
  Times are real numbers here; rounding of floats is not modelled.
\<close>

theorem swc_weighted_count_bounded:
  assumes "window_of current_time (swc_window_size L) = Inr current_window"
    and "window_data = (case windows L k of None \<Rightarrow> swc_default | Some wd \<Rightarrow> wd)"
    and "0 \<le> current window_data" and "0 \<le> previous window_data"
  shows "(case swc_get_stats L k current_time of
            Inl e \<Rightarrow> False
          | Inr (st, L') \<Rightarrow>
              swcs_weighted_count st =
                of_int (previous window_data) *
                  (1 - (current_time - of_int (current_window * swc_window_size L))
                         / of_int (swc_window_size L))
                + of_int (current window_data)
            \<and> of_int (current window_data) \<le> swcs_weighted_count st
            \<and> swcs_weighted_count st \<le> of_int (current window_data + previous window_data))
       \<and> (let window_data' = slide current_window window_data;
               wc = weighted_count (swc_window_size L) current_time current_window window_data'
           in of_int (current window_data') \<le> wc
            \<and> wc \<le> of_int (current window_data' + previous window_data')
            \<and> map_sum id fst (swc_is_allowed L k current_time) = Inr (wc < of_int (swc_limit L)))"
proof -
  have gi: "fst (getitem (windows L) swc_default k) = window_data"
    by (simp add: getitem_def assms(2) split: option.split)
  have stats: "swc_get_stats L k current_time =
      Inr (\<lparr>swcs_weighted_count =
               weighted_count (swc_window_size L) current_time current_window window_data,
             swcs_current_window_requests = current window_data,
             swcs_previous_window_requests = previous window_data,
             swcs_limit = swc_limit L,
             swcs_remaining = max 0 (of_int (swc_limit L)
               - weighted_count (swc_window_size L) current_time current_window window_data)\<rparr>,
           L\<lparr>windows := snd (getitem (windows L) swc_default k)\<rparr>)"
    using gi by (cases "getitem (windows L) swc_default k")
      (simp add: swc_get_stats_def assms(1) Let_def)
  have b1: "of_int (current window_data)
      \<le> weighted_count (swc_window_size L) current_time current_window window_data"
    and b2: "weighted_count (swc_window_size L) current_time current_window window_data
      \<le> of_int (current window_data + previous window_data)"
    using weighted_count_bounds [OF assms(1) assms(4)] by simp_all
  have part1: "(case swc_get_stats L k current_time of
            Inl e \<Rightarrow> False
          | Inr (st, L') \<Rightarrow>
              swcs_weighted_count st =
                of_int (previous window_data) *
                  (1 - (current_time - of_int (current_window * swc_window_size L))
                         / of_int (swc_window_size L))
                + of_int (current window_data)
            \<and> of_int (current window_data) \<le> swcs_weighted_count st
            \<and> swcs_weighted_count st \<le> of_int (current window_data + previous window_data))"
    using b1 b2 by (simp add: stats) (simp add: weighted_count_def Let_def)
  define wd' where "wd' = slide current_window window_data"
  have nn: "0 \<le> previous wd'"
    unfolding wd'_def using assms(3,4) by (rule slide_nonneg)
  have c1: "of_int (current wd')
      \<le> weighted_count (swc_window_size L) current_time current_window wd'"
    and c2: "weighted_count (swc_window_size L) current_time current_window wd'
      \<le> of_int (current wd' + previous wd')"
    using weighted_count_bounds [OF assms(1) nn] by simp_all
  have dec: "map_sum id fst (swc_is_allowed L k current_time) =
      Inr (weighted_count (swc_window_size L) current_time current_window wd' < of_int (swc_limit L))"
    using gi by (cases "getitem (windows L) swc_default k")
      (simp add: swc_is_allowed_def assms(1) Let_def wd'_def)
  have part2: "(let window_data' = slide current_window window_data;
               wc = weighted_count (swc_window_size L) current_time current_window window_data'
           in of_int (current window_data') \<le> wc
            \<and> wc \<le> of_int (current window_data' + previous window_data')
            \<and> map_sum id fst (swc_is_allowed L k current_time) = Inr (wc < of_int (swc_limit L)))"
    using c1 c2 dec by (simp add: Let_def wd'_def)
  from part1 part2 show ?thesis by (rule conjI)
qed

theorem swc_weighted_count_bounded_witness:
  "swcs_weighted_count (fst (projr (swc_get_stats
      \<lparr>swc_limit = 10, swc_window_size = 60,
       windows = [''test'' \<mapsto> \<lparr>current = 3, previous = 4, current_start = 1\<rparr>]\<rparr> ''test'' 75))) = 6
   \<and> weighted_count 60 75 1 (slide 1 \<lparr>current = 3, previous = 4, current_start = 1\<rparr>) = 6"
  using swc_weighted_count_bounded
    [of 75 "\<lparr>swc_limit = 10, swc_window_size = 60,
        windows = [''test'' \<mapsto> \<lparr>current = 3, previous = 4, current_start = 1\<rparr>]\<rparr>" 1
        "\<lparr>current = 3, previous = 4, current_start = 1\<rparr>" "''test''"]
  by (simp add: window_of_def swc_get_stats_def getitem_def weighted_count_def slide_def)

section \<open>Leaky bucket: bounded queue, first in first out\<close>

text \<open>
  Claim C2.  For a LeakyBucketRateLimiter constructed with positive capacity and leak
  rate, after any sequence of \<^verbatim>\<open>is_allowed\<close> calls every key's queue holds at most
  \<open>capacity\<close> entries.  One call, in any state, turns the key's queue into the old queue
  without its first \<open>n\<close> entries (the oldest ones, \<open>n\<close> being the number leaked, at most
  the queue's length), followed by the call's own time if the call was admitted: entries
  leave at the front in the order they were appended at the back.
\<close>

theorem lb_queue_bounded_fifo:
  assumes "0 < capacity" and "0 < rate" and "lb_init capacity rate = Inr L0"
  shows "(\<forall>k b. lb_buckets (lb_calls L0 cs) k = Some b \<longrightarrow> int (length (queue b)) \<le> capacity)
       \<and> (let b = (case lb_buckets L k of None \<Rightarrow> lb_default ft | Some b \<Rightarrow> b);
              n = nat (min (py_int ((t - last_leak b) * leak_rate L)) (int (length (queue b))))
          in map_option queue (lb_buckets (snd (lb_is_allowed L k t ft)) k) =
               Some (drop n (queue b) @ (if fst (lb_is_allowed L k t ft) then [t] else [])))"
proof -
  from assms(3) have L0: "L0 = \<lparr>lb_capacity = capacity, leak_rate = rate, lb_buckets = Map.empty\<rparr>"
    by (simp add: lb_init_def)
  have "lb_inv L0" and "0 \<le> lb_capacity L0"
    using assms(1) by (simp_all add: L0 lb_inv_def)
  then have "lb_inv (lb_calls L0 cs) \<and> lb_capacity (lb_calls L0 cs) = lb_capacity L0"
    by (rule lb_inv_calls)
  moreover have "lb_capacity L0 = capacity"
    by (simp add: L0)
  ultimately have bound:
    "\<forall>k b. lb_buckets (lb_calls L0 cs) k = Some b \<longrightarrow> int (length (queue b)) \<le> capacity"
    by (auto simp: lb_inv_def)
  have fifo: "(let b = (case lb_buckets L k of None \<Rightarrow> lb_default ft | Some b \<Rightarrow> b);
              n = nat (min (py_int ((t - last_leak b) * leak_rate L)) (int (length (queue b))))
          in map_option queue (lb_buckets (snd (lb_is_allowed L k t ft)) k) =
               Some (drop n (queue b) @ (if fst (lb_is_allowed L k t ft) then [t] else [])))"
    by (simp add: lb_is_allowed_step Let_def)
  from bound fifo show ?thesis by (rule conjI)
qed

theorem lb_queue_bounded_fifo_witness:
  "lb_init 2 1 = Inr \<lparr>lb_capacity = 2, leak_rate = 1, lb_buckets = Map.empty\<rparr>
   \<and> lb_buckets (lb_calls \<lparr>lb_capacity = 2, leak_rate = 1, lb_buckets = Map.empty\<rparr>
        [(''test'', 0, 0), (''test'', 0, 0), (''test'', 0, 0), (''test'', 1, 1)]) ''test''
     = Some \<lparr>queue = [0, 1], last_leak = 1\<rparr>
   \<and> int (length [0::real, 1]) \<le> 2"
  using lb_queue_bounded_fifo
    [of 2 1 "\<lparr>lb_capacity = 2, leak_rate = 1, lb_buckets = Map.empty\<rparr>"
        "[(''test'', 0, 0), (''test'', 0, 0), (''test'', 0, 0), (''test'', 1, 1)]"]
  by (simp add: lb_init_def lb_is_allowed_step lb_default_def py_int_def)

section \<open>Token bucket: the factory's clock reading\<close>

text \<open>
  Claim C7 says that the first \<^verbatim>\<open>is_allowed\<close> call for an unseen key is admitted by each
  of the five strategies when the limit or capacity is at least 1.  The fixed window, the
  two sliding window strategies and the leaky bucket do so (\<open>first_call_admitted\<close>, for a
  non-zero window size).  The token bucket admits the call exactly when the cost is at
  most \<open>min capacity (capacity + (current_time - factory_time) * refill_rate)\<close>
  (\<open>tb_first_call\<close>): its factory reads the clock after the call has read it, so the first
  refill adds a negative amount whenever the clock has advanced in between.  With
  capacity 1 and refill rate 1, a call reading the clock at 1000 whose factory reads it
  one microsecond later finds 0.999999 tokens and is rejected.
\<close>

theorem tb_first_call_rejected:
  "tb_init 1 1 = Inr \<lparr>tb_capacity = 1, refill_rate = 1, tb_buckets = Map.empty\<rparr>
   \<and> tb_is_allowed \<lparr>tb_capacity = 1, refill_rate = 1, tb_buckets = Map.empty\<rparr>
        ''user2'' 1 1000 (1000 + 1 / 1000000)
     = (False, \<lparr>tb_capacity = 1, refill_rate = 1,
                tb_buckets = [''user2'' \<mapsto> \<lparr>tokens = 999999 / 1000000, last_refill = 1000\<rparr>]\<rparr>)"
  by (simp add: tb_init_def tb_is_allowed_step tb_default_def)

text \<open>
  Claim C1 says that the tokens of every key stay within \<open>[0, capacity]\<close> after every
  call, for positive capacity, refill rate and costs and non-decreasing times.  The upper
  bound holds after every call (\<open>tb_tokens_le_capacity\<close>), and both bounds hold when
  the clock does not advance within a call (\<open>tb_tokens_in_range_instantaneous\<close>).  With
  capacity 1 and refill rate 2000, a first call reading the clock at 1000 whose factory
  reads it one millisecond later refills by \<open>- 2\<close> tokens: the key ends the call with
  \<open>- 1\<close> tokens.
\<close>

theorem tb_tokens_negative:
  "tb_init 1 2000 = Inr \<lparr>tb_capacity = 1, refill_rate = 2000, tb_buckets = Map.empty\<rparr>
   \<and> tb_calls \<lparr>tb_capacity = 1, refill_rate = 2000, tb_buckets = Map.empty\<rparr>
        [(''user2'', 1, 1000, 1000 + 1 / 1000)]
     = \<lparr>tb_capacity = 1, refill_rate = 2000,
        tb_buckets = [''user2'' \<mapsto> \<lparr>tokens = - 1, last_refill = 1000\<rparr>]\<rparr>"
  by (simp add: tb_init_def tb_is_allowed_step tb_default_def)

section \<open>Statistics and the key map\<close>

text \<open>
  Claim C8, as stated, fails: \<^verbatim>\<open>get_stats\<close> looks the key up in the defaultdict, so for a
  key the limiter has not seen it stores the baseline record under that key.  After
  \<^verbatim>\<open>get_stats\<close> on a fresh FixedWindowRateLimiter the key map is no longer empty.
\<close>

theorem get_stats_inserts_unseen_key:
  "snd (fw_get_stats \<lparr>fw_limit = 5, fw_window_size = 10, counters = Map.empty\<rparr> ''user1'')
     \<noteq> \<lparr>fw_limit = 5, fw_window_size = 10, counters = Map.empty\<rparr>
   \<and> counters (snd (fw_get_stats \<lparr>fw_limit = 5, fw_window_size = 10, counters = Map.empty\<rparr>
        ''user1'')) ''user1'' = Some \<lparr>count = 0, window_start = 0\<rparr>"
  by (simp add: fw_get_stats_def getitem_def fw_default_def)

text \<open>
  Claim C8, amended.  For each of the five strategies \<^verbatim>\<open>get_stats\<close> leaves the limiter
  exactly as it was when the key is already present; when the key is absent the only
  change is that the key is mapped to the strategy's baseline record (for the two buckets,
  stamped with the factory's clock reading); the configuration and every other key's
  record are untouched.  A second \<^verbatim>\<open>get_stats\<close> for the same key at the same clock
  readings returns the same snapshot and the same limiter as the first.  (For the sliding
  window counter a zero window size makes \<^verbatim>\<open>get_stats\<close> raise before it touches the map.)
\<close>

theorem get_stats_frame:
  "snd (fw_get_stats L1 k) =
     (case counters L1 k of
        None \<Rightarrow> L1\<lparr>counters := (counters L1)(k \<mapsto> fw_default)\<rparr>
      | Some c \<Rightarrow> L1)
   \<and> fw_get_stats (snd (fw_get_stats L1 k)) k = fw_get_stats L1 k
   \<and> snd (swl_get_stats L2 k t) =
     (case logs L2 k of None \<Rightarrow> L2\<lparr>logs := (logs L2)(k \<mapsto> [])\<rparr> | Some c \<Rightarrow> L2)
   \<and> swl_get_stats (snd (swl_get_stats L2 k t)) k t = swl_get_stats L2 k t
   \<and> (case swc_get_stats L3 k t of Inl e \<Rightarrow> L3 | Inr (st, L') \<Rightarrow> L') =
     (case window_of t (swc_window_size L3) of
        Inl e \<Rightarrow> L3
      | Inr w \<Rightarrow> (case windows L3 k of
                    None \<Rightarrow> L3\<lparr>windows := (windows L3)(k \<mapsto> swc_default)\<rparr>
                  | Some c \<Rightarrow> L3))
   \<and> swc_get_stats (case swc_get_stats L3 k t of Inl e \<Rightarrow> L3 | Inr (st, L') \<Rightarrow> L') k t
       = swc_get_stats L3 k t
   \<and> snd (tb_get_stats L4 k ft) =
     (case tb_buckets L4 k of
        None \<Rightarrow> L4\<lparr>tb_buckets := (tb_buckets L4)(k \<mapsto> tb_default L4 ft)\<rparr>
      | Some c \<Rightarrow> L4)
   \<and> tb_get_stats (snd (tb_get_stats L4 k ft)) k ft = tb_get_stats L4 k ft
   \<and> snd (lb_get_stats L5 k ft) =
     (case lb_buckets L5 k of
        None \<Rightarrow> L5\<lparr>lb_buckets := (lb_buckets L5)(k \<mapsto> lb_default ft)\<rparr>
      | Some c \<Rightarrow> L5)
   \<and> lb_get_stats (snd (lb_get_stats L5 k ft)) k ft = lb_get_stats L5 k ft"
  using fw_get_stats_frame [of L1 k] swl_get_stats_frame [of L2 k t]
    swc_get_stats_frame [of L3 k t] tb_get_stats_frame [of L4 k ft]
    lb_get_stats_frame [of L5 k ft]
  by blast

section \<open>Construction\<close>

text \<open>
  Claim C9, as stated, fails: no constructor checks its arguments.  Each of the five is
  built with a non-positive limit or capacity and a non-positive window size or rate,
  and no error is raised.
\<close>

theorem init_accepts_nonpositive:
  "fw_init 0 0 = Inr \<lparr>fw_limit = 0, fw_window_size = 0, counters = Map.empty\<rparr>
   \<and> swl_init 0 (- 5) = Inr \<lparr>swl_limit = 0, swl_window_size = - 5, logs = Map.empty\<rparr>
   \<and> swc_init (- 1) 0 = Inr \<lparr>swc_limit = - 1, swc_window_size = 0, windows = Map.empty\<rparr>
   \<and> tb_init 0 0 = Inr \<lparr>tb_capacity = 0, refill_rate = 0, tb_buckets = Map.empty\<rparr>
   \<and> lb_init (- 3) (- 1) = Inr \<lparr>lb_capacity = - 3, leak_rate = - 1, lb_buckets = Map.empty\<rparr>"
  by (simp add: fw_init_def swl_init_def swc_init_def tb_init_def lb_init_def)

text \<open>
  Claim C9, amended.  Construction never raises: for every limit or capacity and every
  window size or rate, non-positive ones included, each of the five constructors returns
  a limiter holding exactly the given values and an empty key map.  A zero window size
  shows only later, as the ZeroDivisionError of every \<^verbatim>\<open>is_allowed\<close> call of the fixed
  window and of the sliding window counter, and of the latter's \<^verbatim>\<open>get_stats\<close>.
\<close>

theorem init_never_raises:
  "fw_init limit window_size =
     Inr \<lparr>fw_limit = limit, fw_window_size = window_size, counters = Map.empty\<rparr>
   \<and> swl_init limit window_size =
     Inr \<lparr>swl_limit = limit, swl_window_size = window_size, logs = Map.empty\<rparr>
   \<and> swc_init limit window_size =
     Inr \<lparr>swc_limit = limit, swc_window_size = window_size, windows = Map.empty\<rparr>
   \<and> tb_init capacity rate =
     Inr \<lparr>tb_capacity = capacity, refill_rate = rate, tb_buckets = Map.empty\<rparr>
   \<and> lb_init capacity rate =
     Inr \<lparr>lb_capacity = capacity, leak_rate = rate, lb_buckets = Map.empty\<rparr>
   \<and> fw_is_allowed \<lparr>fw_limit = limit, fw_window_size = 0, counters = cs\<rparr> k t
       = Inl ZeroDivisionError
   \<and> swc_is_allowed \<lparr>swc_limit = limit, swc_window_size = 0, windows = ws\<rparr> k t
       = Inl ZeroDivisionError
   \<and> swc_get_stats \<lparr>swc_limit = limit, swc_window_size = 0, windows = ws\<rparr> k t
       = Inl ZeroDivisionError"
  by (simp add: fw_init_def swl_init_def swc_init_def tb_init_def lb_init_def
      fw_is_allowed_def swc_is_allowed_def swc_get_stats_def window_of_def)

end
